theory Spec2Isabelle
  imports Main "HOL-Library.Sublist" "HOL-Library.Multiset"
begin

text \<open>
  A model of \<open>crtsh_csv_to_nslookup.py\<close>: the script reads one column of a CSV file,
  runs \<open>nslookup\<close> on every non-empty value in a pool of worker threads, and writes
  one report file. The functions of the script are embedded under their own names. What
  the script gets from outside is a parameter of the model: the records \<open>csv.reader\<close>
  yields for the input file (the file is taken to exist and to parse), what
  \<open>subprocess.run\<close> does for each query, the clock, and the order in which the
  queries finish. Writing the report file is taken to succeed.
\<close>

section \<open>Strings and built-ins of the host language\<close>

text \<open>
  A Python \<open>str\<close> is modelled as a \<open>string\<close>; a \<open>char\<close> stands for a code point
  below 256. \<open>isspace\<close> is \<open>str.isspace\<close> on those code points, and \<open>strip\<close> is
  \<open>str.strip()\<close> without argument: leading and trailing whitespace removed.
\<close>

definition isspace :: "char \<Rightarrow> bool" where
  "isspace c = (of_char c \<in> {9, 10, 11, 12, 13, 28, 29, 30, 31, 32, 133, 160 :: nat})"

definition lstrip :: "string \<Rightarrow> string" where
  "lstrip s = dropWhile isspace s"

definition rstrip :: "string \<Rightarrow> string" where
  "rstrip s = rev (dropWhile isspace (rev s))"

definition strip :: "string \<Rightarrow> string" where
  "strip s = rstrip (lstrip s)"

text \<open>Decimal rendering of an integer, as an f-string field \<open>{n}\<close> does.\<close>

definition digit_char :: "nat \<Rightarrow> char" where
  "digit_char d = char_of (48 + d)"

fun str_nat :: "nat \<Rightarrow> string" where
  "str_nat n = (if n < 10 then [digit_char n] else str_nat (n div 10) @ [digit_char (n mod 10)])"

declare str_nat.simps [simp del]

definition str_int :: "int \<Rightarrow> string" where
  "str_int i = (if i < 0 then CHR ''-'' # str_nat (nat (- i)) else str_nat (nat i))"

text \<open>
  \<open>repr\<close> of a \<open>str\<close> and of a list of \<open>str\<close>, which is what the f-string field
  \<open>{reader.fieldnames}\<close> prints: the quote is \<open>'\<close> unless the string has a \<open>'\<close> and
  no \<open>"\<close>; the quote, the backslash, tab, newline and carriage return are escaped with a
  backslash, and any other non-printable code point is written \<open>\xhh\<close>.
\<close>

definition hex_digit :: "nat \<Rightarrow> char" where
  "hex_digit d = (if d < 10 then char_of (48 + d) else char_of (87 + d))"

definition isprintable :: "char \<Rightarrow> bool" where
  "isprintable c = (let n = of_char c :: nat in (32 \<le> n \<and> n < 127) \<or> (161 \<le> n \<and> n \<noteq> 173))"

definition repr_char :: "char \<Rightarrow> char \<Rightarrow> string" where
  "repr_char q c =
     (if c = q \<or> c = CHR 0x5C then [CHR 0x5C, c]
      else if c = CHR 0x09 then [CHR 0x5C, CHR ''t'']
      else if c = CHR 0x0A then [CHR 0x5C, CHR ''n'']
      else if c = CHR 0x0D then [CHR 0x5C, CHR ''r'']
      else if \<not> isprintable c
        then [CHR 0x5C, CHR ''x'', hex_digit (of_char c div 16), hex_digit (of_char c mod 16)]
      else [c])"

definition repr_str :: "string \<Rightarrow> string" where
  "repr_str s =
     (let q = (if CHR 0x27 \<in> set s \<and> CHR 0x22 \<notin> set s then CHR 0x22 else CHR 0x27)
      in [q] @ concat (map (repr_char q) s) @ [q])"

fun join :: "string \<Rightarrow> string list \<Rightarrow> string" where
  "join sep [] = []"
| "join sep [x] = x"
| "join sep (x # y # ys) = x @ sep @ join sep (y # ys)"

definition repr_list :: "string list \<Rightarrow> string" where
  "repr_list xs = ''['' @ join '', '' (map repr_str xs) @ '']''"

text \<open>Substring test, Python's \<open>pat in s\<close> on strings.\<close>

fun contains :: "string \<Rightarrow> string \<Rightarrow> bool" where
  "contains pat [] = (pat = [])"
| "contains pat (c # cs) = (prefix pat (c # cs) \<or> contains pat cs)"

section \<open>Configuration\<close>

definition QUERY_CMD :: string where
  "QUERY_CMD = ''nslookup''"

definition NSLOOKUP_TYPE :: string where
  "NSLOOKUP_TYPE = ''-type=TXT''"

definition DIG_TYPE :: string where
  "DIG_TYPE = ''TXT''"

definition TIMEOUT :: int where
  "TIMEOUT = 6"

text \<open>
  The size of the pool. It bounds how many queries run at once; the order in which
  they finish, which is all the report depends on, is a parameter of the model.
\<close>

definition MAX_WORKERS :: nat where
  "MAX_WORKERS = 12"

section \<open>Exceptions and outcomes\<close>

text \<open>
  The exceptions the script can raise itself. \<open>ValueError\<close> carries its message;
  \<open>TypeError\<close> is \<open>column_name not in None\<close> (a file with no header record) and
  \<open>AttributeError\<close> is \<open>None.strip()\<close>.
\<close>

datatype exn = TypeError | AttributeError | ValueError string

fun exn_text :: "exn \<Rightarrow> string" where
  "exn_text TypeError = ''argument of type 'NoneType' is not iterable''"
| "exn_text AttributeError = [CHR 0x27] @ ''NoneType' object has no attribute 'strip'' @ [CHR 0x27]"
| "exn_text (ValueError m) = m"

text \<open>
  How a call of \<open>main\<close> ends: it returns, it leaves through \<open>sys.exit(n)\<close>, or an
  exception escapes it. \<open>exit_status\<close> is the status of the process in each case.
\<close>

datatype outcome = Returned | SysExit int | Uncaught exn

fun exit_status :: "outcome \<Rightarrow> int" where
  "exit_status Returned = 0"
| "exit_status (SysExit n) = n"
| "exit_status (Uncaught e) = 1"

section \<open>The resolver\<close>

definition make_nslookup_cmd :: "string \<Rightarrow> exn + string list option" where
  "make_nslookup_cmd host0 =
     (let host = strip host0 in
      if host = [] then Inr None
      else if QUERY_CMD = ''nslookup'' then
        (if NSLOOKUP_TYPE \<noteq> [] then Inr (Some [''nslookup'', NSLOOKUP_TYPE, host])
         else Inr (Some [''nslookup'', host]))
      else if QUERY_CMD = ''dig'' then Inr (Some [''dig'', ''+short'', ''TXT'', host])
      else Inl (ValueError (''QUERY_CMD must be 'nslookup' or 'dig'' @ [CHR 0x27])))"

text \<open>
  What \<open>subprocess.run(cmd, capture_output=True, text=True, timeout=TIMEOUT)\<close> does is
  the environment's: the child completes with a return code, its stdout and its stderr;
  or \<open>TimeoutExpired\<close> is raised, carrying the output captured so far; or any other
  \<open>Exception\<close> is raised, of which only \<open>str(e)\<close> is used.
\<close>

datatype proc_result =
    Completed int string string
  | TimeoutExpired string string
  | Failed string

definition run_query :: "(string list \<Rightarrow> proc_result) \<Rightarrow> string \<Rightarrow> exn + (string \<times> string \<times> string)" where
  "run_query subprocess_run host =
     (case make_nslookup_cmd host of
        Inl e \<Rightarrow> Inl e
      | Inr None \<Rightarrow> Inr (host, ''EMPTY_HOSTNAME'', [])
      | Inr (Some cmd) \<Rightarrow>
          (let out =
             (case subprocess_run cmd of
                Completed rc stdout stderr \<Rightarrow>
                  ''RETURN_CODE='' @ str_int rc @ ''\<newline>STDOUT:\<newline>'' @ strip stdout
                    @ ''\<newline>STDERR:\<newline>'' @ strip stderr
              | TimeoutExpired partial_out partial_err \<Rightarrow>
                  ''ERROR: timeout after '' @ str_int TIMEOUT @ ''s''
              | Failed msg \<Rightarrow> ''ERROR: '' @ msg)
           in Inr (host, ''OK'', out)))"

section \<open>The loader\<close>

text \<open>
  The input file is taken as the records \<open>csv.reader\<close> yields for it, each a list of
  field strings; a blank line is the record \<open>[]\<close>. \<open>csv.DictReader\<close> takes the first
  record as \<open>fieldnames\<close> (\<open>None\<close> when there is no record at all), skips every later
  record that is \<open>[]\<close>, and turns each other record into a dict:
  \<open>dict(zip(fieldnames, row))\<close>, where a later pair replaces an earlier one of the
  same key, then \<open>d[key] = restval\<close> for the field names a short row does not reach.
  \<open>restval\<close> is left at its default \<open>None\<close>, so a dict value is a \<open>string option\<close>.
  The fields of a long row go under the key \<open>restkey = None\<close>, which no column name (a
  \<open>str\<close>) equals, and are left out.
\<close>

definition DictReader_row :: "string list \<Rightarrow> string list \<Rightarrow> (string \<rightharpoonup> string option)" where
  "DictReader_row fieldnames row =
     Map.empty(fieldnames [\<mapsto>] map Some row @ replicate (length fieldnames - length row) None)"

text \<open>\<open>row.get(key, default)\<close>: the default only when the key is absent.\<close>

definition dict_get :: "(string \<rightharpoonup> string option) \<Rightarrow> string \<Rightarrow> string \<Rightarrow> string option" where
  "dict_get d key dflt = (case d key of None \<Rightarrow> Some dflt | Some v \<Rightarrow> v)"

text \<open>
  The loop over the reader, with \<open>hosts\<close> as its accumulator. \<open>.strip()\<close> on \<open>None\<close>
  raises \<open>AttributeError\<close>, which nothing in \<open>main\<close> catches.
\<close>

fun read_rows :: "string list \<Rightarrow> string \<Rightarrow> string list list \<Rightarrow> string list \<Rightarrow> exn + string list" where
  "read_rows fieldnames column_name [] hosts = Inr hosts"
| "read_rows fieldnames column_name (row # rows) hosts =
     (if row = [] then read_rows fieldnames column_name rows hosts
      else case dict_get (DictReader_row fieldnames row) column_name [] of
             None \<Rightarrow> Inl AttributeError
           | Some v \<Rightarrow>
               (let val = strip v in
                if val \<noteq> [] then read_rows fieldnames column_name rows (hosts @ [val])
                else read_rows fieldnames column_name rows hosts))"

section \<open>The report file\<close>

text \<open>
  The file system maps a path to the text of the file there. \<open>open(path, "w")\<close> creates
  the file or truncates it; \<open>write\<close> appends to what the handle has written so far.
\<close>

type_synonym files = "string \<rightharpoonup> string"

definition open_w :: "string \<Rightarrow> files \<Rightarrow> files" where
  "open_w path fs = fs(path \<mapsto> [])"

definition fwrite :: "string \<Rightarrow> string \<Rightarrow> files \<Rightarrow> files" where
  "fwrite path text fs = fs(path \<mapsto> (case fs path of None \<Rightarrow> [] | Some old \<Rightarrow> old) @ text)"

text \<open>\<open>now\<close> is \<open>datetime.utcnow().isoformat()\<close>, read from the clock.\<close>

definition write_header :: "string \<Rightarrow> string \<Rightarrow> string \<Rightarrow> string \<Rightarrow> nat \<Rightarrow> files \<Rightarrow> files" where
  "write_header outfh csv_file column now total_hosts fs =
     fwrite outfh (''# total hosts: '' @ str_int (int total_hosts) @ ''\<newline>\<newline>'')
      (fwrite outfh (''# date: '' @ now @ ''Z\<newline>'')
        (fwrite outfh (''# column: '' @ column @ ''\<newline>'')
          (fwrite outfh (''# source CSV: '' @ csv_file @ ''\<newline>'')
            (fwrite outfh ''# csv_nslookup.py results\<newline>'' fs))))"

section \<open>The worker pool\<close>

text \<open>
  \<open>as_completed\<close> yields every submitted future exactly once, in the order in which
  the queries finish. That order is the environment's: a schedule gives, at each step,
  which of the futures still pending finishes next (taken modulo their number; the first
  one when the schedule has run out).
\<close>

definition next_done :: "nat list \<Rightarrow> nat \<Rightarrow> nat" where
  "next_done sched n = (case sched of [] \<Rightarrow> 0 | c # _ \<Rightarrow> c mod n)"

definition remove_nth :: "nat \<Rightarrow> 'a list \<Rightarrow> 'a list" where
  "remove_nth k xs = take k xs @ drop (Suc k) xs"

function as_completed :: "nat list \<Rightarrow> 'a list \<Rightarrow> 'a list" where
  "as_completed sched [] = []"
| "as_completed sched (f # fs) =
     (let k = next_done sched (Suc (length fs))
      in (f # fs) ! k # as_completed (tl sched) (remove_nth k (f # fs)))"
  by pat_completeness auto
termination
proof (relation "measure (\<lambda>(sched, pending). length pending)")
  show "wf (measure (\<lambda>(sched, pending). length pending))"
    by simp
next
  fix sched :: "nat list" and f :: 'a and fs :: "'a list" and k :: nat
  assume "k = next_done sched (Suc (length fs))"
  then have "k < Suc (length fs)"
    by (simp add: next_done_def split: list.splits)
  then show "((tl sched, remove_nth k (f # fs)), (sched, f # fs))
      \<in> measure (\<lambda>(sched, pending). length pending)"
    by (simp add: remove_nth_def min_def)
qed

declare as_completed.simps(2) [simp del]

section \<open>The program\<close>

text \<open>
  The environment of a run: \<open>subprocess_run i cmd\<close> is what \<open>subprocess.run\<close> does for
  the \<open>i\<close>-th submitted query, \<open>utcnow\<close> the clock's ISO text, \<open>schedule\<close> the order of
  completion.
\<close>

record env =
  subprocess_run :: "nat \<Rightarrow> string list \<Rightarrow> proc_result"
  utcnow :: string
  schedule :: "nat list"

text \<open>
  One turn of the loop over \<open>as_completed(futures)\<close>: \<open>fut.result()\<close> of the future
  submitted as number \<open>i\<close> for \<open>host\<close>, the \<open>EXC\<close> handler, and the three writes.
\<close>

definition fut_result :: "env \<Rightarrow> nat \<times> string \<Rightarrow> string \<times> string \<times> string" where
  "fut_result e fut =
     (case fut of (i, host) \<Rightarrow>
        (case run_query (subprocess_run e i) host of
           Inr r \<Rightarrow> r
         | Inl x \<Rightarrow> (host, ''EXC'', ''ERROR: '' @ exn_text x)))"

definition write_block :: "env \<Rightarrow> string \<Rightarrow> nat \<times> string \<Rightarrow> files \<Rightarrow> files" where
  "write_block e outfh fut fs =
     (case fut_result e fut of (hostname, status, output) \<Rightarrow>
        fwrite outfh ''\<newline>\<newline>''
          (fwrite outfh output
            (fwrite outfh (''--- '' @ hostname @ '' ---\<newline>'') fs)))"

text \<open>
  \<open>main\<close>, on the records of the input file: \<open>csv_name\<close> is \<open>csv_path.name\<close> and
  \<open>out_path\<close> the output path. It gives how the call ends, the lines printed and the
  file system after it.
\<close>

definition main :: "env \<Rightarrow> string list list \<Rightarrow> string \<Rightarrow> string \<Rightarrow> string \<Rightarrow> files
    \<Rightarrow> outcome \<times> string list \<times> files" where
  "main e records csv_name column_name out_path fs =
     (case records of
        [] \<Rightarrow> (Uncaught TypeError, [], fs)
      | fieldnames # rows \<Rightarrow>
          if column_name \<notin> set fieldnames then
            (SysExit 2,
             [''ERROR: column '' @ [CHR 0x27] @ column_name @ [CHR 0x27]
                @ '' not found. Available columns: '' @ repr_list fieldnames],
             fs)
          else
            (case read_rows fieldnames column_name rows [] of
               Inl x \<Rightarrow> (Uncaught x, [], fs)
             | Inr hosts \<Rightarrow>
                 if hosts = [] then (Returned, [''No hosts found in that column.''], fs)
                 else
                   (let fs1 = open_w out_path fs;
                        fs2 = write_header out_path csv_name column_name (utcnow e) (length hosts) fs1;
                        futures = zip [0..<length hosts] hosts;
                        fs3 = fold (write_block e out_path) (as_completed (schedule e) futures) fs2
                    in (Returned, [''Done. Results saved to '' @ out_path], fs3))))"

section \<open>The report as text, and the column as the specification reads it\<close>

text \<open>
  The text of the header block and of the block of one future: what \<open>write_header\<close>
  and one turn of the reporting loop append to the file.
\<close>

definition header_text :: "string \<Rightarrow> string \<Rightarrow> string \<Rightarrow> nat \<Rightarrow> string" where
  "header_text csv_file column now total_hosts =
     ''# csv_nslookup.py results\<newline>''
     @ ''# source CSV: '' @ csv_file @ ''\<newline>''
     @ ''# column: '' @ column @ ''\<newline>''
     @ ''# date: '' @ now @ ''Z\<newline>''
     @ ''# total hosts: '' @ str_int (int total_hosts) @ ''\<newline>\<newline>''"

definition block_text :: "env \<Rightarrow> nat \<times> string \<Rightarrow> string" where
  "block_text e fut =
     (case fut_result e fut of (hostname, status, output) \<Rightarrow>
        ''--- '' @ hostname @ '' ---\<newline>'' @ output @ ''\<newline>\<newline>'')"

text \<open>
  The value of a row in the named column, by position: the field under the last header
  field of that name; \<open>None\<close> when the row is too short to have one. \<open>column_values\<close>
  are the values of the column over the rows that are not blank lines.
\<close>

fun column_field :: "string list \<Rightarrow> string \<Rightarrow> string list \<Rightarrow> string option" where
  "column_field [] column row = None"
| "column_field (name # names) column row =
     (if column \<in> set names then column_field names column (tl row)
      else if name = column then (case row of [] \<Rightarrow> None | v # _ \<Rightarrow> Some v)
      else None)"

definition column_values :: "string list \<Rightarrow> string \<Rightarrow> string list list \<Rightarrow> string list" where
  "column_values fieldnames column rows =
     concat (map (\<lambda>row. if row = [] then [] else
                          (case column_field fieldnames column row of None \<Rightarrow> [] | Some v \<Rightarrow> [v])) rows)"

section \<open>Example runs\<close>

text \<open>
  The example of the specification, a ragged file, and two environments: in the first
  the query submitted first completes and every other one times out; in the second the
  first query cannot be spawned.
\<close>

definition example_records :: "string list list" where
  "example_records =
     [[''CN'', ''Issuer''], [''a.example.com'', ''X''], [[], ''Y''], [''b.example.com'', ''Z'']]"

definition ragged_records :: "string list list" where
  "ragged_records = [[''CN'', ''Issuer''], [''a.example.com'', ''X''], [''b.example.com'']]"

definition example_env :: env where
  "example_env =
     \<lparr>subprocess_run = (\<lambda>i cmd. if i = 0 then Completed 0 '' v=spf1 -all '' []
                                 else TimeoutExpired ''Server: 10.0.0.1'' []),
      utcnow = ''2026-01-01T00:00:00'',
      schedule = [1]\<rparr>"

definition failing_env :: env where
  "failing_env =
     \<lparr>subprocess_run = (\<lambda>i cmd. if i = 0 then Failed ''[Errno 12] Cannot allocate memory''
                                 else Completed 1 [] ''** server can't find host''),
      utcnow = ''2026-01-02T03:04:05.678901'',
      schedule = []\<rparr>"

section \<open>Strings\<close>

lemma dropWhile_rstrip_prefix: "s = rstrip s @ rev (takeWhile isspace (rev s))"
proof -
  have "rstrip s @ rev (takeWhile isspace (rev s))
      = rev (takeWhile isspace (rev s) @ dropWhile isspace (rev s))"
    by (simp only: rstrip_def rev_append)
  also have "\<dots> = s"
    by (simp only: takeWhile_dropWhile_id rev_rev_ident)
  finally show ?thesis by simp
qed

lemma rstrip_idem: "rstrip (rstrip s) = rstrip s"
  by (simp add: rstrip_def)

lemma lstrip_rstrip_lstrip: "lstrip (rstrip (lstrip s)) = rstrip (lstrip s)"
proof (cases "rstrip (lstrip s) = []")
  case True
  then show ?thesis by (simp add: lstrip_def)
next
  case False
  define t where "t = lstrip s"
  from False have ne: "rstrip t \<noteq> []" by (simp add: t_def)
  have "t = rstrip t @ rev (takeWhile isspace (rev t))" by (rule dropWhile_rstrip_prefix)
  then have "hd t = hd (rstrip t)" using ne by (metis hd_append2)
  moreover have "t \<noteq> []" using ne by (auto simp: rstrip_def)
  then have "\<not> isspace (hd t)" unfolding t_def lstrip_def by (rule hd_dropWhile)
  ultimately have "\<not> isspace (hd (rstrip t))" by simp
  then have "dropWhile isspace (rstrip t) = rstrip t" using ne by (cases "rstrip t") auto
  then show ?thesis by (simp add: lstrip_def t_def)
qed

lemma strip_idem: "strip (strip s) = strip s"
  by (simp add: strip_def lstrip_rstrip_lstrip rstrip_idem)


section \<open>The report file and the pool\<close>

lemma write_header_open:
  "write_header p csv_file column now n (open_w p fs) = fs(p \<mapsto> header_text csv_file column now n)"
  by (simp add: write_header_def open_w_def fwrite_def header_text_def)

lemma write_block_on:
  "fs p = Some c \<Longrightarrow> write_block e p fut fs = fs(p \<mapsto> c @ block_text e fut)"
  by (simp add: write_block_def block_text_def fwrite_def split: prod.splits)

lemma fold_write_block:
  "fs p = Some c \<Longrightarrow>
     fold (write_block e p) futs fs = fs(p \<mapsto> c @ concat (map (block_text e) futs))"
proof (induction futs arbitrary: fs c)
  case Nil
  then show ?case by (simp add: fun_upd_idem)
next
  case (Cons fut futs)
  have "fold (write_block e p) (fut # futs) fs = fold (write_block e p) futs (fs(p \<mapsto> c @ block_text e fut))"
    using Cons.prems by (simp add: write_block_on)
  also have "\<dots> = (fs(p \<mapsto> c @ block_text e fut))(p \<mapsto> (c @ block_text e fut) @ concat (map (block_text e) futs))"
    by (rule Cons.IH) simp
  finally show ?case by simp
qed

lemma mset_remove_nth:
  "k < length xs \<Longrightarrow> add_mset (xs ! k) (mset (remove_nth k xs)) = mset xs"
proof -
  assume "k < length xs"
  then have "xs = take k xs @ xs ! k # drop (Suc k) xs"
    by (rule id_take_nth_drop)
  then have "mset xs = mset (take k xs @ xs ! k # drop (Suc k) xs)"
    by (rule arg_cong)
  then show ?thesis by (simp add: remove_nth_def)
qed

lemma next_done_less: "0 < n \<Longrightarrow> next_done sched n < n"
  by (simp add: next_done_def split: list.splits)

lemma mset_as_completed: "mset (as_completed sched futs) = mset futs"
proof (induction sched futs rule: as_completed.induct)
  case (1 sched)
  then show ?case by simp
next
  case (2 sched f fs)
  define k where "k = next_done sched (Suc (length fs))"
  have k: "k < length (f # fs)" by (simp add: k_def next_done_less)
  have "mset (as_completed sched (f # fs))
      = add_mset ((f # fs) ! k) (mset (as_completed (tl sched) (remove_nth k (f # fs))))"
    by (simp add: as_completed.simps(2) k_def Let_def)
  also have "\<dots> = add_mset ((f # fs) ! k) (mset (remove_nth k (f # fs)))"
    using "2.IH" [OF k_def] by simp
  also have "\<dots> = mset (f # fs)" using k by (rule mset_remove_nth)
  finally show ?case .
qed

lemma main_report:
  assumes "column_name \<in> set fieldnames"
    and "read_rows fieldnames column_name rows [] = Inr hosts"
    and "hosts \<noteq> []"
  shows "main e (fieldnames # rows) csv_name column_name out_path fs =
    (Returned, [''Done. Results saved to '' @ out_path],
     fs(out_path \<mapsto> header_text csv_name column_name (utcnow e) (length hosts)
          @ concat (map (block_text e) (as_completed (schedule e) (zip [0..<length hosts] hosts)))))"
proof -
  have "fold (write_block e out_path) (as_completed (schedule e) (zip [0..<length hosts] hosts))
          (fs(out_path \<mapsto> header_text csv_name column_name (utcnow e) (length hosts)))
       = (fs(out_path \<mapsto> header_text csv_name column_name (utcnow e) (length hosts)))
           (out_path \<mapsto> header_text csv_name column_name (utcnow e) (length hosts)
              @ concat (map (block_text e) (as_completed (schedule e) (zip [0..<length hosts] hosts))))"
    by (rule fold_write_block) simp
  then show ?thesis
    using assms by (simp add: main_def write_header_open Let_def)
qed

lemma upds_column_field:
  "column \<in> set fn \<Longrightarrow>
     (m(fn [\<mapsto>] map Some row @ replicate (length fn - length row) None)) column
       = Some (column_field fn column row)"
proof (induction fn arbitrary: m row)
  case Nil
  then show ?case by simp
next
  case (Cons n ns)
  show ?case
  proof (cases row)
    case Nil
    show ?thesis
    proof (cases "column \<in> set ns")
      case True
      have "\<And>m'. (m'(ns [\<mapsto>] replicate (length ns) None)) column = Some (column_field ns column [])"
        using Cons.IH [OF True, of _ "[]"] by simp
      with True Nil show ?thesis by simp
    next
      case False
      with Cons.prems Nil show ?thesis by simp
    qed
  next
    case (Cons v vs)
    show ?thesis
    proof (cases "column \<in> set ns")
      case True
      have "\<And>m'. (m'(ns [\<mapsto>] map Some vs @ replicate (length ns - length vs) None)) column
          = Some (column_field ns column vs)"
        using Cons.IH [OF True] by simp
      with True Cons show ?thesis by simp
    next
      case False
      with Cons.prems Cons show ?thesis by simp
    qed
  qed
qed

lemma dict_get_column_field:
  "column \<in> set fn \<Longrightarrow> dict_get (DictReader_row fn row) column dflt = column_field fn column row"
  by (simp add: dict_get_def DictReader_row_def upds_column_field)

lemma column_values_Nil: "column_values fn column [] = []"
  by (simp add: column_values_def)

lemma column_values_Cons:
  "column_values fn column (row # rows) =
     (if row = [] then [] else (case column_field fn column row of None \<Rightarrow> [] | Some v \<Rightarrow> [v]))
       @ column_values fn column rows"
  by (simp add: column_values_def)

lemma read_rows_Inr:
  "column \<in> set fn \<Longrightarrow> read_rows fn column rows acc = Inr hosts \<Longrightarrow>
     hosts = acc @ filter (\<lambda>v. v \<noteq> []) (map strip (column_values fn column rows))"
proof (induction rows arbitrary: acc)
  case Nil
  then show ?case by (simp add: column_values_Nil)
next
  case (Cons row rows)
  show ?case
  proof (cases "row = []")
    case True
    with Cons show ?thesis by (simp add: column_values_Cons)
  next
    case False
    show ?thesis
    proof (cases "column_field fn column row")
      case None
      with False Cons.prems show ?thesis by (simp add: dict_get_column_field)
    next
      case (Some v)
      with False Cons.prems Cons.IH [of "acc @ [strip v]"] Cons.IH [of acc]
      show ?thesis
        by (simp add: dict_get_column_field column_values_Cons Let_def split: if_splits)
    qed
  qed
qed

lemma read_rows_Inl:
  "column \<in> set fn \<Longrightarrow> read_rows fn column rows acc = Inl x \<Longrightarrow>
     x = AttributeError \<and> (\<exists>row \<in> set rows. row \<noteq> [] \<and> column_field fn column row = None)"
proof (induction rows arbitrary: acc)
  case Nil
  then show ?case by simp
next
  case (Cons row rows)
  show ?case
  proof (cases "row = []")
    case True
    with Cons show ?thesis by simp
  next
    case False
    show ?thesis
    proof (cases "column_field fn column row")
      case None
      with False Cons.prems show ?thesis by (simp add: dict_get_column_field)
    next
      case (Some v)
      with False Cons.prems Cons.IH [of "acc @ [strip v]"] Cons.IH [of acc]
      show ?thesis
        by (simp add: dict_get_column_field Let_def split: if_splits)
    qed
  qed
qed

lemma read_rows_complete:
  assumes "column \<in> set fn"
    and "\<forall>row \<in> set rows. row \<noteq> [] \<longrightarrow> column_field fn column row \<noteq> None"
  shows "read_rows fn column rows acc
     = Inr (acc @ filter (\<lambda>v. v \<noteq> []) (map strip (column_values fn column rows)))"
proof (cases "read_rows fn column rows acc")
  case (Inl x)
  with assms read_rows_Inl [OF assms(1) Inl] show ?thesis by auto
next
  case (Inr hosts)
  with read_rows_Inr [OF assms(1) Inr] show ?thesis by simp
qed

lemma read_rows_stripped:
  "read_rows fn column rows acc = Inr hosts \<Longrightarrow> \<forall>h \<in> set acc. h \<noteq> [] \<and> strip h = h \<Longrightarrow>
     \<forall>h \<in> set hosts. h \<noteq> [] \<and> strip h = h"
proof (induction rows arbitrary: acc)
  case Nil
  then show ?case by simp
next
  case (Cons row rows)
  show ?case
  proof (cases "row = []")
    case True
    then have "read_rows fn column rows acc = Inr hosts"
      using Cons.prems(1) by simp
    then show ?thesis
      using Cons.prems(2) by (rule Cons.IH)
  next
    case False
    show ?thesis
    proof (cases "dict_get (DictReader_row fn row) column []")
      case None
      then have "read_rows fn column (row # rows) acc = Inl AttributeError"
        using False by simp
      with Cons.prems(1) show ?thesis by simp
    next
      case (Some v)
      show ?thesis
      proof (cases "strip v = []")
        case True
        then have "read_rows fn column rows acc = Inr hosts"
          using False Some Cons.prems(1) by simp
        then show ?thesis
          using Cons.prems(2) by (rule Cons.IH)
      next
        case nonempty: False
        have "\<forall>h \<in> set (acc @ [strip v]). h \<noteq> [] \<and> strip h = h"
          using Cons.prems(2) nonempty by (simp add: strip_idem)
        moreover have "read_rows fn column rows (acc @ [strip v]) = Inr hosts"
          using False Some nonempty Cons.prems(1) by simp
        ultimately show ?thesis by (rule Cons.IH [rotated])
      qed
    qed
  qed
qed

lemma str_int_TIMEOUT: "str_int TIMEOUT = ''6''"
  unfolding TIMEOUT_def by code_simp

lemma make_nslookup_cmd_stripped:
  "h \<noteq> [] \<Longrightarrow> strip h = h \<Longrightarrow> make_nslookup_cmd h = Inr (Some [''nslookup'', ''-type=TXT'', h])"
  by (simp add: make_nslookup_cmd_def QUERY_CMD_def NSLOOKUP_TYPE_def)

lemma run_query_stripped:
  assumes "h \<noteq> []" and "strip h = h"
  shows "run_query run h = Inr (h, ''OK'',
     (case run [''nslookup'', ''-type=TXT'', h] of
        Completed rc out err \<Rightarrow>
          ''RETURN_CODE='' @ str_int rc @ ''\<newline>STDOUT:\<newline>'' @ strip out
            @ ''\<newline>STDERR:\<newline>'' @ strip err
      | TimeoutExpired partial_out partial_err \<Rightarrow> ''ERROR: timeout after 6s''
      | Failed msg \<Rightarrow> ''ERROR: '' @ msg))"
  using assms
  by (simp add: run_query_def make_nslookup_cmd_stripped str_int_TIMEOUT split: proc_result.splits)

lemma contains_infix: "contains pat (a @ pat @ b)"
proof (induction a)
  case Nil
  show ?case
  proof (cases "pat @ b")
    case Nil
    then show ?thesis by simp
  next
    case (Cons c cs)
    then have "prefix pat (c # cs)" by (metis prefixI)
    with Cons show ?thesis by simp
  qed
next
  case (Cons c a)
  then show ?case by simp
qed

lemma join_member: "x \<in> set xs \<Longrightarrow> \<exists>a b. join sep xs = a @ x @ b"
proof (induction sep xs rule: join.induct)
  case (1 sep)
  then show ?case by simp
next
  case (2 sep y)
  then have "join sep [y] = [] @ x @ []" by simp
  then show ?case by blast
next
  case (3 sep y z zs)
  show ?case
  proof (cases "x = y")
    case True
    then have "join sep (y # z # zs) = [] @ x @ (sep @ join sep (z # zs))" by simp
    then show ?thesis by blast
  next
    case False
    with 3 obtain a b where "join sep (z # zs) = a @ x @ b" by auto
    then have "join sep (y # z # zs) = (y @ sep @ a) @ x @ b" by simp
    then show ?thesis by blast
  qed
qed

lemma repr_list_contains: "f \<in> set fieldnames \<Longrightarrow> contains (repr_str f) (pre @ repr_list fieldnames)"
proof -
  assume "f \<in> set fieldnames"
  then have "repr_str f \<in> set (map repr_str fieldnames)" by simp
  then obtain a b where "join '', '' (map repr_str fieldnames) = a @ repr_str f @ b"
    using join_member by blast
  then have "pre @ repr_list fieldnames = (pre @ ''['' @ a) @ repr_str f @ (b @ '']'')"
    by (simp add: repr_list_def)
  then show ?thesis by (simp only: contains_infix)
qed


section \<open>Files in which every record reaches the column\<close>

text \<open>
  On an input none of whose records stops short of the named column the loader always
  returns, with the non-empty trimmed values of the column in the order of the rows;
  then the report has one block for each of them, and the hosts named by the blocks are
  those values, each as often as it occurs, whatever the order of completion.
\<close>

lemma report_when_rows_complete:
  assumes "column_name \<in> set fieldnames"
    and "\<forall>row \<in> set rows. row \<noteq> [] \<longrightarrow> column_field fieldnames column_name row \<noteq> None"
    and "hosts = filter (\<lambda>v. v \<noteq> []) (map strip (column_values fieldnames column_name rows))"
    and "hosts \<noteq> []"
  shows "\<exists>order.
     main e (fieldnames # rows) csv_name column_name out_path fs =
       (Returned, [''Done. Results saved to '' @ out_path],
        fs(out_path \<mapsto> header_text csv_name column_name (utcnow e) (length hosts)
             @ concat (map (block_text e) order)))
     \<and> length order = length hosts
     \<and> mset (map snd order) = mset hosts"
proof -
  define order where "order = as_completed (schedule e) (zip [0..<length hosts] hosts)"
  have loaded: "read_rows fieldnames column_name rows [] = Inr hosts"
    using read_rows_complete [OF assms(1) assms(2), of "[]"] assms(3) by simp
  have all: "mset order = mset (zip [0..<length hosts] hosts)"
    unfolding order_def by (rule mset_as_completed)
  then have "mset (map snd order) = mset (map snd (zip [0..<length hosts] hosts))"
    by (metis mset_map)
  then have hosts: "mset (map snd order) = mset hosts"
    by simp
  have "size (mset order) = size (mset (zip [0..<length hosts] hosts))"
    using all by simp
  then have count: "length order = length hosts"
    by simp
  have "main e (fieldnames # rows) csv_name column_name out_path fs =
       (Returned, [''Done. Results saved to '' @ out_path],
        fs(out_path \<mapsto> header_text csv_name column_name (utcnow e) (length hosts)
             @ concat (map (block_text e) order)))"
    unfolding order_def by (rule main_report [OF assms(1) loaded assms(4)])
  with count hosts show ?thesis
    by blast
qed

lemma no_hosts_when_rows_complete:
  assumes "column_name \<in> set fieldnames"
    and "\<forall>row \<in> set rows. row \<noteq> [] \<longrightarrow> column_field fieldnames column_name row \<noteq> None"
    and "filter (\<lambda>v. v \<noteq> []) (map strip (column_values fieldnames column_name rows)) = []"
  shows "main e (fieldnames # rows) csv_name column_name out_path fs
     = (Returned, [''No hosts found in that column.''], fs)"
proof -
  have "read_rows fieldnames column_name rows [] = Inr []"
    using read_rows_complete [OF assms(1) assms(2), of "[]"] assms(3) by simp
  then show ?thesis
    using assms(1) by (simp add: main_def)
qed

section \<open>Loaded hosts and their futures\<close>

lemma set_as_completed: "set (as_completed sched futs) = set futs"
  using mset_as_completed [of sched futs] by (rule mset_eq_setD)

lemma future_completes:
  assumes "i < length hosts"
  shows "\<exists>before after.
     as_completed sched (zip [0..<length hosts] hosts) = before @ (i, hosts ! i) # after"
proof -
  have "zip [0..<length hosts] hosts ! i = (i, hosts ! i)"
    using assms by simp
  moreover have "zip [0..<length hosts] hosts ! i \<in> set (zip [0..<length hosts] hosts)"
    using assms by (intro nth_mem) simp
  ultimately have "(i, hosts ! i) \<in> set (as_completed sched (zip [0..<length hosts] hosts))"
    by (simp only: set_as_completed)
  then show ?thesis
    by (simp only: in_set_conv_decomp)
qed

lemma fut_result_loaded:
  assumes "read_rows fieldnames column_name rows [] = Inr hosts"
    and "h \<in> set hosts"
  shows "fut_result e (i, h) = (h, ''OK'',
     (case subprocess_run e i [''nslookup'', ''-type=TXT'', h] of
        Completed rc out err \<Rightarrow>
          ''RETURN_CODE='' @ str_int rc @ ''\<newline>STDOUT:\<newline>'' @ strip out
            @ ''\<newline>STDERR:\<newline>'' @ strip err
      | TimeoutExpired partial_out partial_err \<Rightarrow> ''ERROR: timeout after 6s''
      | Failed msg \<Rightarrow> ''ERROR: '' @ msg))"
proof -
  have "\<forall>h \<in> set hosts. h \<noteq> [] \<and> strip h = h"
    using assms(1) by (rule read_rows_stripped) simp
  with assms(2) have "h \<noteq> []" and "strip h = h"
    by simp_all
  then show ?thesis
    by (simp add: fut_result_def run_query_stripped)
qed

lemma read_rows_skip_blank:
  assumes "column_name \<in> set fieldnames"
    and "column_field fieldnames column_name row = Some v"
    and "strip v = []"
  shows "read_rows fieldnames column_name (before @ row # after) acc
     = read_rows fieldnames column_name (before @ after) acc"
proof (induction before arbitrary: acc)
  case Nil
  show ?case
    using assms by (simp add: dict_get_column_field)
next
  case (Cons r before)
  then show ?case
    by (simp add: Let_def split: option.splits)
qed

section \<open>The claims\<close>

text \<open>
  Claim C1 fails on a ragged file. The header of \<open>ragged_records\<close> has the column
  \<open>Issuer\<close> and the column has one non-empty trimmed value, \<open>X\<close>; the last record
  stops short of the column, its dict value is \<open>None\<close>, and \<open>None.strip()\<close> raises:
  \<open>main\<close> ends with the uncaught \<open>AttributeError\<close>, having printed nothing and never
  opened the output file, so there is no block where the claim counts one.
\<close>

theorem short_row_aborts_before_report:
  "''Issuer'' \<in> set [''CN'', ''Issuer'']
   \<and> filter (\<lambda>v. v \<noteq> []) (map strip (column_values [''CN'', ''Issuer''] ''Issuer'' (tl ragged_records)))
       = [''X'']
   \<and> dict_get (DictReader_row [''CN'', ''Issuer''] [''b.example.com'']) ''Issuer'' [] = None
   \<and> main example_env ragged_records ''crt.csv'' ''Issuer'' ''out.txt'' Map.empty
       = (Uncaught AttributeError, [], Map.empty)"
proof -
  have "filter (\<lambda>v. v \<noteq> []) (map strip (column_values [''CN'', ''Issuer''] ''Issuer'' (tl ragged_records)))
      = [''X'']"
    by code_simp
  moreover have "dict_get (DictReader_row [''CN'', ''Issuer''] [''b.example.com'']) ''Issuer'' [] = None"
    by code_simp
  moreover have "read_rows [''CN'', ''Issuer''] ''Issuer'' [[''a.example.com'', ''X''], [''b.example.com'']] []
      = Inl AttributeError"
    by code_simp
  then have "main example_env ragged_records ''crt.csv'' ''Issuer'' ''out.txt'' Map.empty
      = (Uncaught AttributeError, [], Map.empty)"
    by (simp add: main_def ragged_records_def)
  ultimately show ?thesis
    by simp
qed

text \<open>
  Claim C2. When the header record does not contain the named column, \<open>main\<close> leaves
  through \<open>sys.exit(2)\<close>, so the process ends with status 2; the one line it prints
  names the column and gives the \<open>repr\<close> of the list of field names, in which the
  \<open>repr\<close> of every available column occurs; and the file system is left as it was, so
  the output path is neither created nor modified.
\<close>

theorem column_not_found_exit_2:
  assumes "column_name \<notin> set fieldnames"
  shows "main e (fieldnames # rows) csv_name column_name out_path fs =
           (SysExit 2,
            [''ERROR: column '' @ [CHR 0x27] @ column_name @ [CHR 0x27]
               @ '' not found. Available columns: '' @ repr_list fieldnames],
            fs)
       \<and> exit_status (fst (main e (fieldnames # rows) csv_name column_name out_path fs)) = 2
       \<and> (\<forall>f \<in> set fieldnames.
             contains (repr_str f)
               (hd (fst (snd (main e (fieldnames # rows) csv_name column_name out_path fs)))))"
proof -
  define msg where "msg = ''ERROR: column '' @ [CHR 0x27] @ column_name @ [CHR 0x27]
      @ '' not found. Available columns: ''"
  have run: "main e (fieldnames # rows) csv_name column_name out_path fs
      = (SysExit 2, [msg @ repr_list fieldnames], fs)"
    using assms by (simp add: main_def msg_def)
  have listed: "\<forall>f \<in> set fieldnames. contains (repr_str f) (msg @ repr_list fieldnames)"
    by (intro ballI repr_list_contains)
  have "msg @ repr_list fieldnames = ''ERROR: column '' @ [CHR 0x27] @ column_name @ [CHR 0x27]
      @ '' not found. Available columns: '' @ repr_list fieldnames"
    by (simp add: msg_def)
  moreover have "exit_status (fst (main e (fieldnames # rows) csv_name column_name out_path fs)) = 2"
    by (simp add: run)
  moreover have "\<forall>f \<in> set fieldnames.
      contains (repr_str f) (hd (fst (snd (main e (fieldnames # rows) csv_name column_name out_path fs))))"
    using listed by (simp only: run fst_conv snd_conv list.sel)
  ultimately show ?thesis
    by (simp only: run)
qed

theorem column_not_found_exit_2_witness:
  "''Host'' \<notin> set [''CN'', ''Issuer'']
   \<and> main example_env example_records ''crt.csv'' ''Host'' ''out.txt'' Map.empty =
       (SysExit 2, [''ERROR: column 'Host' not found. Available columns: ['CN', 'Issuer']''], Map.empty)
   \<and> contains (repr_str ''Issuer'') ''ERROR: column 'Host' not found. Available columns: ['CN', 'Issuer']''"
proof -
  have absent: "''Host'' \<notin> set [''CN'', ''Issuer'']"
    by simp
  have shown: "repr_list [''CN'', ''Issuer''] = ''['CN', 'Issuer']''"
    by code_simp
  have listed: "contains (repr_str ''Issuer'')
      ''ERROR: column 'Host' not found. Available columns: ['CN', 'Issuer']''"
    by code_simp
  have "main example_env ([''CN'', ''Issuer''] # tl example_records) ''crt.csv'' ''Host'' ''out.txt'' Map.empty
      = (SysExit 2,
         [''ERROR: column '' @ [CHR 0x27] @ ''Host'' @ [CHR 0x27]
            @ '' not found. Available columns: '' @ repr_list [''CN'', ''Issuer'']],
         Map.empty)"
    by (rule column_not_found_exit_2 [OF absent, THEN conjunct1])
  then have "main example_env example_records ''crt.csv'' ''Host'' ''out.txt'' Map.empty =
      (SysExit 2, [''ERROR: column 'Host' not found. Available columns: ['CN', 'Issuer']''], Map.empty)"
    by (simp add: example_records_def shown)
  with absent listed show ?thesis
    by (intro conjI)
qed

text \<open>
  Claim C3, as the code has it. A row whose value in the named column is empty after
  trimming is dropped by the loader and the run goes on: how \<open>main\<close> ends, what it
  prints and the file system it leaves are those of the same input without that row. No
  block and no status is written for the row.
\<close>

theorem blank_value_row_skipped:
  assumes "column_name \<in> set fieldnames"
    and "column_field fieldnames column_name row = Some v"
    and "strip v = []"
  shows "main e (fieldnames # before @ row # after) csv_name column_name out_path fs
       = main e (fieldnames # before @ after) csv_name column_name out_path fs"
  using assms(1) by (simp add: main_def read_rows_skip_blank [OF assms])

theorem blank_value_row_skipped_witness:
  "''CN'' \<in> set [''CN'', ''Issuer'']
   \<and> column_field [''CN'', ''Issuer''] ''CN'' [[], ''Y''] = Some []
   \<and> strip [] = []
   \<and> main example_env example_records ''crt.csv'' ''CN'' ''out.txt'' Map.empty
       = main example_env [[''CN'', ''Issuer''], [''a.example.com'', ''X''], [''b.example.com'', ''Z'']]
           ''crt.csv'' ''CN'' ''out.txt'' Map.empty"
proof -
  have col: "''CN'' \<in> set [''CN'', ''Issuer'']"
    by simp
  have blank: "column_field [''CN'', ''Issuer''] ''CN'' [[], ''Y''] = Some []"
    by simp
  have trimmed: "strip [] = []"
    by (simp add: strip_def lstrip_def rstrip_def)
  show ?thesis
    using blank_value_row_skipped [OF col blank trimmed, of example_env "[[''a.example.com'', ''X'']]"
        "[[''b.example.com'', ''Z'']]" "''crt.csv''" "''out.txt''" Map.empty] col blank trimmed
    by (simp add: example_records_def)
qed

text \<open>
  Claim C3 as stated fails: in this run the second record has only blanks in the column
  \<open>CN\<close>, and the output file has the header and the one block of the other host; the
  status \<open>EMPTY_HOSTNAME\<close> is nowhere in it.
\<close>

theorem empty_hostname_not_recorded:
  "column_field [''CN''] ''CN'' [''  ''] = Some ''  ''
   \<and> strip ''  '' = []
   \<and> snd (snd (main failing_env [[''CN''], [''  ''], [''a.example.com'']] ''crt.csv'' ''CN'' ''out.txt''
         Map.empty)) ''out.txt''
      = Some ''# csv_nslookup.py results\<newline># source CSV: crt.csv\<newline># column: CN\<newline># date: 2026-01-02T03:04:05.678901Z\<newline># total hosts: 1\<newline>\<newline>--- a.example.com ---\<newline>ERROR: [Errno 12] Cannot allocate memory\<newline>\<newline>''
   \<and> \<not> contains ''EMPTY_HOSTNAME'' ''# csv_nslookup.py results\<newline># source CSV: crt.csv\<newline># column: CN\<newline># date: 2026-01-02T03:04:05.678901Z\<newline># total hosts: 1\<newline>\<newline>--- a.example.com ---\<newline>ERROR: [Errno 12] Cannot allocate memory\<newline>\<newline>''"
  by code_simp

text \<open>
  Claim C4. When the query of a loaded host runs into the timeout, whatever output the
  abandoned process had produced so far, the output recorded for that host is the
  timeout message alone, with none of the section labels \<open>RETURN_CODE\<close>, \<open>STDOUT\<close> and
  \<open>STDERR\<close> in it, and the block of that host in the output file is its delimiter
  line, that message and the blank separator.
\<close>

theorem timeout_block:
  assumes "column_name \<in> set fieldnames"
    and "read_rows fieldnames column_name rows [] = Inr hosts"
    and "i < length hosts"
    and "subprocess_run e i [''nslookup'', ''-type=TXT'', hosts ! i]
           = TimeoutExpired partial_out partial_err"
  shows "fut_result e (i, hosts ! i) = (hosts ! i, ''OK'', ''ERROR: timeout after 6s'')
       \<and> \<not> contains ''RETURN_CODE'' (snd (snd (fut_result e (i, hosts ! i))))
       \<and> \<not> contains ''STDOUT'' (snd (snd (fut_result e (i, hosts ! i))))
       \<and> \<not> contains ''STDERR'' (snd (snd (fut_result e (i, hosts ! i))))
       \<and> (\<exists>before after.
             snd (snd (main e (fieldnames # rows) csv_name column_name out_path fs)) out_path
               = Some (header_text csv_name column_name (utcnow e) (length hosts)
                       @ concat (map (block_text e) before)
                       @ (''--- '' @ hosts ! i @ '' ---\<newline>ERROR: timeout after 6s\<newline>\<newline>'')
                       @ concat (map (block_text e) after)))"
proof -
  have host: "hosts ! i \<in> set hosts"
    using assms(3) by simp
  have some: "hosts \<noteq> []"
    using assms(3) by auto
  have result: "fut_result e (i, hosts ! i) = (hosts ! i, ''OK'', ''ERROR: timeout after 6s'')"
    using fut_result_loaded [OF assms(2) host, of e i] assms(4) by simp
  have block: "block_text e (i, hosts ! i)
      = ''--- '' @ hosts ! i @ '' ---\<newline>ERROR: timeout after 6s\<newline>\<newline>''"
    by (simp add: block_text_def result)
  have no_rc: "\<not> contains ''RETURN_CODE'' ''ERROR: timeout after 6s''"
    by code_simp
  have no_out: "\<not> contains ''STDOUT'' ''ERROR: timeout after 6s''"
    by code_simp
  have no_err: "\<not> contains ''STDERR'' ''ERROR: timeout after 6s''"
    by code_simp
  obtain before after where
    order: "as_completed (schedule e) (zip [0..<length hosts] hosts) = before @ (i, hosts ! i) # after"
    using future_completes [OF assms(3)] by blast
  have "snd (snd (main e (fieldnames # rows) csv_name column_name out_path fs)) out_path
      = Some (header_text csv_name column_name (utcnow e) (length hosts)
              @ concat (map (block_text e) before)
              @ (''--- '' @ hosts ! i @ '' ---\<newline>ERROR: timeout after 6s\<newline>\<newline>'')
              @ concat (map (block_text e) after))"
    using main_report [OF assms(1) assms(2) some, of e csv_name out_path fs]
    by (simp add: order block)
  then have "\<exists>before after.
      snd (snd (main e (fieldnames # rows) csv_name column_name out_path fs)) out_path
        = Some (header_text csv_name column_name (utcnow e) (length hosts)
                @ concat (map (block_text e) before)
                @ (''--- '' @ hosts ! i @ '' ---\<newline>ERROR: timeout after 6s\<newline>\<newline>'')
                @ concat (map (block_text e) after))"
    by blast
  with result no_rc no_out no_err show ?thesis
    by (simp only: snd_conv simp_thms)
qed

theorem timeout_block_witness:
  "''CN'' \<in> set [''CN'', ''Issuer'']
   \<and> read_rows [''CN'', ''Issuer''] ''CN'' (tl example_records) [] = Inr [''a.example.com'', ''b.example.com'']
   \<and> subprocess_run example_env 1 [''nslookup'', ''-type=TXT'', ''b.example.com'']
        = TimeoutExpired ''Server: 10.0.0.1'' []
   \<and> fut_result example_env (1, ''b.example.com'') = (''b.example.com'', ''OK'', ''ERROR: timeout after 6s'')
   \<and> \<not> contains ''STDOUT'' (snd (snd (fut_result example_env (1, ''b.example.com''))))"
proof -
  have col: "''CN'' \<in> set [''CN'', ''Issuer'']"
    by simp
  have loaded: "read_rows [''CN'', ''Issuer''] ''CN'' (tl example_records) []
      = Inr [''a.example.com'', ''b.example.com'']"
    by code_simp
  have i: "1 < length [''a.example.com'', ''b.example.com'']"
    by simp
  have host: "[''a.example.com'', ''b.example.com''] ! 1 = ''b.example.com''"
    by simp
  have expired: "subprocess_run example_env 1 [''nslookup'', ''-type=TXT'', ''b.example.com'']
      = TimeoutExpired ''Server: 10.0.0.1'' []"
    by (simp add: example_env_def)
  have expired': "subprocess_run example_env 1
        [''nslookup'', ''-type=TXT'', [''a.example.com'', ''b.example.com''] ! 1]
      = TimeoutExpired ''Server: 10.0.0.1'' []"
    unfolding host by (rule expired)
  note run = timeout_block [OF col loaded i expired', unfolded host]
  from run have "fut_result example_env (1, ''b.example.com'')
      = (''b.example.com'', ''OK'', ''ERROR: timeout after 6s'')"
    by (rule conjunct1)
  moreover have "\<not> contains ''STDOUT'' (snd (snd (fut_result example_env (1, ''b.example.com''))))"
    by (rule run [THEN conjunct2, THEN conjunct2, THEN conjunct1])
  ultimately show ?thesis
    using col loaded expired by (intro conjI)
qed

text \<open>
  Claim C5. When the query of a loaded host fails with an exception (the child cannot
  be spawned, an I/O error, or any other \<open>Exception\<close>), \<open>main\<close> still returns: the
  failure is the text \<open>ERROR:\<close> with the exception's message in the block of that
  host; the file holds the header and one block for every submitted query; and the
  block of every other query is what it would be had that query ended in any other way.
\<close>

theorem query_failure_isolated:
  assumes "column_name \<in> set fieldnames"
    and "read_rows fieldnames column_name rows [] = Inr hosts"
    and "i < length hosts"
    and "subprocess_run e i [''nslookup'', ''-type=TXT'', hosts ! i] = Failed msg"
  shows "fst (main e (fieldnames # rows) csv_name column_name out_path fs) = Returned
       \<and> block_text e (i, hosts ! i) = ''--- '' @ hosts ! i @ '' ---\<newline>ERROR: '' @ msg @ ''\<newline>\<newline>''
       \<and> snd (snd (main e (fieldnames # rows) csv_name column_name out_path fs)) out_path
           = Some (header_text csv_name column_name (utcnow e) (length hosts)
                   @ concat (map (block_text e)
                       (as_completed (schedule e) (zip [0..<length hosts] hosts))))
       \<and> mset (as_completed (schedule e) (zip [0..<length hosts] hosts))
           = mset (zip [0..<length hosts] hosts)
       \<and> (\<forall>j h. j \<noteq> i \<longrightarrow>
             block_text (e\<lparr>subprocess_run := (subprocess_run e)(i := other)\<rparr>) (j, h)
               = block_text e (j, h))"
proof -
  have host: "hosts ! i \<in> set hosts"
    using assms(3) by simp
  have some: "hosts \<noteq> []"
    using assms(3) by auto
  have "fut_result e (i, hosts ! i) = (hosts ! i, ''OK'', ''ERROR: '' @ msg)"
    using fut_result_loaded [OF assms(2) host, of e i] assms(4) by simp
  then have block: "block_text e (i, hosts ! i)
      = ''--- '' @ hosts ! i @ '' ---\<newline>ERROR: '' @ msg @ ''\<newline>\<newline>''"
    by (simp add: block_text_def)
  have others: "\<forall>j h. j \<noteq> i \<longrightarrow>
      block_text (e\<lparr>subprocess_run := (subprocess_run e)(i := other)\<rparr>) (j, h) = block_text e (j, h)"
    by (simp add: block_text_def fut_result_def)
  note run = main_report [OF assms(1) assms(2) some, of e csv_name out_path fs]
  have "fst (main e (fieldnames # rows) csv_name column_name out_path fs) = Returned"
    by (simp add: run)
  moreover have "snd (snd (main e (fieldnames # rows) csv_name column_name out_path fs)) out_path
      = Some (header_text csv_name column_name (utcnow e) (length hosts)
              @ concat (map (block_text e) (as_completed (schedule e) (zip [0..<length hosts] hosts))))"
    by (simp add: run)
  ultimately show ?thesis
    using block others mset_as_completed [of "schedule e" "zip [0..<length hosts] hosts"]
    by (intro conjI)
qed

theorem query_failure_isolated_witness:
  "''CN'' \<in> set [''CN'', ''Issuer'']
   \<and> read_rows [''CN'', ''Issuer''] ''CN'' (tl example_records) [] = Inr [''a.example.com'', ''b.example.com'']
   \<and> subprocess_run failing_env 0 [''nslookup'', ''-type=TXT'', ''a.example.com'']
        = Failed ''[Errno 12] Cannot allocate memory''
   \<and> fst (main failing_env example_records ''crt.csv'' ''CN'' ''out.txt'' Map.empty) = Returned
   \<and> block_text failing_env (0, ''a.example.com'')
        = ''--- a.example.com ---\<newline>ERROR: [Errno 12] Cannot allocate memory\<newline>\<newline>''
   \<and> block_text failing_env (1, ''b.example.com'')
        = ''--- b.example.com ---\<newline>RETURN_CODE=1\<newline>STDOUT:\<newline>\<newline>STDERR:\<newline>** server can't find host\<newline>\<newline>''"
proof -
  have col: "''CN'' \<in> set [''CN'', ''Issuer'']"
    by simp
  have loaded: "read_rows [''CN'', ''Issuer''] ''CN'' (tl example_records) []
      = Inr [''a.example.com'', ''b.example.com'']"
    by code_simp
  have i: "0 < length [''a.example.com'', ''b.example.com'']"
    by simp
  have host: "[''a.example.com'', ''b.example.com''] ! 0 = ''a.example.com''"
    by simp
  have failed: "subprocess_run failing_env 0 [''nslookup'', ''-type=TXT'', ''a.example.com'']
      = Failed ''[Errno 12] Cannot allocate memory''"
    by (simp add: failing_env_def)
  have failed': "subprocess_run failing_env 0
        [''nslookup'', ''-type=TXT'', [''a.example.com'', ''b.example.com''] ! 0]
      = Failed ''[Errno 12] Cannot allocate memory''"
    unfolding host by (rule failed)
  have records: "[''CN'', ''Issuer''] # tl example_records = example_records"
    by (simp add: example_records_def)
  have other: "block_text failing_env (1, ''b.example.com'')
      = ''--- b.example.com ---\<newline>RETURN_CODE=1\<newline>STDOUT:\<newline>\<newline>STDERR:\<newline>** server can't find host\<newline>\<newline>''"
    by code_simp
  note run = query_failure_isolated [OF col loaded i failed', unfolded host records,
      of "''crt.csv''" "''out.txt''" Map.empty]
  from run have "fst (main failing_env example_records ''crt.csv'' ''CN'' ''out.txt'' Map.empty) = Returned"
    by (rule conjunct1)
  moreover from run have "block_text failing_env (0, ''a.example.com'')
      = ''--- a.example.com ---\<newline>ERROR: [Errno 12] Cannot allocate memory\<newline>\<newline>''"
    by simp
  ultimately show ?thesis
    using col loaded failed other by (intro conjI)
qed

text \<open>
  Claim C6. The output path is opened for writing, which truncates it: after a second
  run against the same output path whose host list is not empty, whatever the first run
  was and left there, the file holds the second run's header, with the second run's
  number of hosts, followed by the second run's blocks, and nothing else.
\<close>

theorem second_run_overwrites:
  assumes "column2 \<in> set fieldnames2"
    and "read_rows fieldnames2 column2 rows2 [] = Inr hosts2"
    and "hosts2 \<noteq> []"
  shows "snd (snd (main e2 (fieldnames2 # rows2) csv2 column2 out_path
                 (snd (snd (main e1 records1 csv1 column1 out_path fs))))) out_path
           = Some (header_text csv2 column2 (utcnow e2) (length hosts2)
                   @ concat (map (block_text e2)
                       (as_completed (schedule e2) (zip [0..<length hosts2] hosts2))))"
  using assms by (simp add: main_report)

theorem second_run_overwrites_witness:
  "''host'' \<in> set [''host'']
   \<and> read_rows [''host''] ''host'' [[''c.example.com'']] [] = Inr [''c.example.com'']
   \<and> (case snd (snd (main example_env example_records ''crt.csv'' ''CN'' ''out.txt'' Map.empty)) ''out.txt'' of
         None \<Rightarrow> False | Some first \<Rightarrow> contains ''total hosts: 2'' first)
   \<and> snd (snd (main failing_env [[''host''], [''c.example.com'']] ''two.csv'' ''host'' ''out.txt''
         (snd (snd (main example_env example_records ''crt.csv'' ''CN'' ''out.txt'' Map.empty))))) ''out.txt''
      = Some ''# csv_nslookup.py results\<newline># source CSV: two.csv\<newline># column: host\<newline># date: 2026-01-02T03:04:05.678901Z\<newline># total hosts: 1\<newline>\<newline>--- c.example.com ---\<newline>ERROR: [Errno 12] Cannot allocate memory\<newline>\<newline>''"
proof -
  have col: "''host'' \<in> set [''host'']"
    by simp
  have loaded: "read_rows [''host''] ''host'' [[''c.example.com'']] [] = Inr [''c.example.com'']"
    by code_simp
  have some: "[''c.example.com''] \<noteq> []"
    by simp
  have first: "case snd (snd (main example_env example_records ''crt.csv'' ''CN'' ''out.txt'' Map.empty)) ''out.txt'' of
         None \<Rightarrow> False | Some first \<Rightarrow> contains ''total hosts: 2'' first"
    by code_simp
  have second: "header_text ''two.csv'' ''host'' (utcnow failing_env) (length [''c.example.com''])
        @ concat (map (block_text failing_env)
            (as_completed (schedule failing_env) (zip [0..<length [''c.example.com'']] [''c.example.com''])))
      = ''# csv_nslookup.py results\<newline># source CSV: two.csv\<newline># column: host\<newline># date: 2026-01-02T03:04:05.678901Z\<newline># total hosts: 1\<newline>\<newline>--- c.example.com ---\<newline>ERROR: [Errno 12] Cannot allocate memory\<newline>\<newline>''"
    by code_simp
  have "snd (snd (main failing_env [[''host''], [''c.example.com'']] ''two.csv'' ''host'' ''out.txt''
         (snd (snd (main example_env example_records ''crt.csv'' ''CN'' ''out.txt'' Map.empty))))) ''out.txt''
      = Some (header_text ''two.csv'' ''host'' (utcnow failing_env) (length [''c.example.com''])
        @ concat (map (block_text failing_env)
            (as_completed (schedule failing_env) (zip [0..<length [''c.example.com'']] [''c.example.com'']))))"
    by (rule second_run_overwrites [OF col loaded some])
  then have "snd (snd (main failing_env [[''host''], [''c.example.com'']] ''two.csv'' ''host'' ''out.txt''
         (snd (snd (main example_env example_records ''crt.csv'' ''CN'' ''out.txt'' Map.empty))))) ''out.txt''
      = Some ''# csv_nslookup.py results\<newline># source CSV: two.csv\<newline># column: host\<newline># date: 2026-01-02T03:04:05.678901Z\<newline># total hosts: 1\<newline>\<newline>--- c.example.com ---\<newline>ERROR: [Errno 12] Cannot allocate memory\<newline>\<newline>''"
    unfolding second .
  with col loaded first show ?thesis
    by (intro conjI)
qed

text \<open>
  Claim C7. When the loader gives a host list that is not empty, the output file
  consists of one header block followed by the blocks of the futures in their order of
  completion. The header gives the name of the source file, the column name, the clock's
  UTC text followed by \<open>Z\<close> and the number of hosts; every block after it starts with
  the delimiter \<open>---\<close>.
\<close>

theorem header_once_before_blocks:
  assumes "column_name \<in> set fieldnames"
    and "read_rows fieldnames column_name rows [] = Inr hosts"
    and "hosts \<noteq> []"
  shows "snd (snd (main e (fieldnames # rows) csv_name column_name out_path fs)) out_path =
           Some (''# csv_nslookup.py results\<newline># source CSV: '' @ csv_name
                 @ ''\<newline># column: '' @ column_name
                 @ ''\<newline># date: '' @ utcnow e
                 @ ''Z\<newline># total hosts: '' @ str_int (int (length hosts)) @ ''\<newline>\<newline>''
                 @ concat (map (block_text e) (as_completed (schedule e) (zip [0..<length hosts] hosts))))
       \<and> (\<forall>fut \<in> set (as_completed (schedule e) (zip [0..<length hosts] hosts)).
             prefix ''--- '' (block_text e fut))"
  using assms by (simp add: main_report header_text_def block_text_def split: prod.splits)

theorem header_once_before_blocks_witness:
  "''CN'' \<in> set [''CN'', ''Issuer'']
   \<and> read_rows [''CN'', ''Issuer''] ''CN'' (tl example_records) [] = Inr [''a.example.com'', ''b.example.com'']
   \<and> snd (snd (main example_env example_records ''crt.csv'' ''CN'' ''out.txt'' Map.empty)) ''out.txt'' =
      Some ''# csv_nslookup.py results\<newline># source CSV: crt.csv\<newline># column: CN\<newline># date: 2026-01-01T00:00:00Z\<newline># total hosts: 2\<newline>\<newline>--- b.example.com ---\<newline>ERROR: timeout after 6s\<newline>\<newline>--- a.example.com ---\<newline>RETURN_CODE=0\<newline>STDOUT:\<newline>v=spf1 -all\<newline>STDERR:\<newline>\<newline>\<newline>''"
proof -
  have col: "''CN'' \<in> set [''CN'', ''Issuer'']"
    by simp
  have loaded: "read_rows [''CN'', ''Issuer''] ''CN'' (tl example_records) []
      = Inr [''a.example.com'', ''b.example.com'']"
    by code_simp
  have some: "[''a.example.com'', ''b.example.com''] \<noteq> []"
    by simp
  have blocks: "concat (map (block_text example_env) (as_completed (schedule example_env)
        (zip [0..<length [''a.example.com'', ''b.example.com'']] [''a.example.com'', ''b.example.com''])))
      = ''--- b.example.com ---\<newline>ERROR: timeout after 6s\<newline>\<newline>--- a.example.com ---\<newline>RETURN_CODE=0\<newline>STDOUT:\<newline>v=spf1 -all\<newline>STDERR:\<newline>\<newline>\<newline>''"
    by code_simp
  have total: "str_int (int (length [''a.example.com'', ''b.example.com''])) = ''2''"
    by code_simp
  have now: "utcnow example_env = ''2026-01-01T00:00:00''"
    by (simp add: example_env_def)
  have records: "[''CN'', ''Issuer''] # tl example_records = example_records"
    by (simp add: example_records_def)
  have "snd (snd (main example_env ([''CN'', ''Issuer''] # tl example_records) ''crt.csv'' ''CN''
          ''out.txt'' Map.empty)) ''out.txt'' =
      Some (''# csv_nslookup.py results\<newline># source CSV: '' @ ''crt.csv''
            @ ''\<newline># column: '' @ ''CN''
            @ ''\<newline># date: '' @ utcnow example_env
            @ ''Z\<newline># total hosts: '' @ str_int (int (length [''a.example.com'', ''b.example.com'']))
            @ ''\<newline>\<newline>''
            @ concat (map (block_text example_env) (as_completed (schedule example_env)
                (zip [0..<length [''a.example.com'', ''b.example.com'']]
                   [''a.example.com'', ''b.example.com'']))))"
    by (rule header_once_before_blocks [OF col loaded some, THEN conjunct1])
  then have "snd (snd (main example_env example_records ''crt.csv'' ''CN'' ''out.txt'' Map.empty)) ''out.txt'' =
      Some ''# csv_nslookup.py results\<newline># source CSV: crt.csv\<newline># column: CN\<newline># date: 2026-01-01T00:00:00Z\<newline># total hosts: 2\<newline>\<newline>--- b.example.com ---\<newline>ERROR: timeout after 6s\<newline>\<newline>--- a.example.com ---\<newline>RETURN_CODE=0\<newline>STDOUT:\<newline>v=spf1 -all\<newline>STDERR:\<newline>\<newline>\<newline>''"
    unfolding blocks total now records by simp
  with col loaded show ?thesis
    by (intro conjI)
qed

text \<open>
  Claim C8 fails on a ragged file, by the same defect as C1. The column \<open>CN\<close> has the
  one non-empty value \<open>a.example.com\<close>; the last record stops short of the column and
  \<open>main\<close> ends with the uncaught \<open>AttributeError\<close> before the output file is opened:
  no output file, hence no delimiter line, names that host.
\<close>

theorem short_row_loses_every_host:
  "''CN'' \<in> set [''id'', ''CN'']
   \<and> set (filter (\<lambda>v. v \<noteq> [])
          (map strip (column_values [''id'', ''CN''] ''CN'' [[''1'', ''a.example.com''], [''2'']])))
       = {''a.example.com''}
   \<and> fst (main failing_env [[''id'', ''CN''], [''1'', ''a.example.com''], [''2'']] ''ids.csv'' ''CN''
         ''report.txt'' Map.empty) = Uncaught AttributeError
   \<and> snd (snd (main failing_env [[''id'', ''CN''], [''1'', ''a.example.com''], [''2'']] ''ids.csv'' ''CN''
         ''report.txt'' Map.empty)) ''report.txt'' = None"
proof -
  have "filter (\<lambda>v. v \<noteq> [])
      (map strip (column_values [''id'', ''CN''] ''CN'' [[''1'', ''a.example.com''], [''2'']]))
      = [''a.example.com'']"
    by code_simp
  then have "set (filter (\<lambda>v. v \<noteq> [])
      (map strip (column_values [''id'', ''CN''] ''CN'' [[''1'', ''a.example.com''], [''2'']])))
      = {''a.example.com''}"
    by simp
  moreover have "fst (main failing_env [[''id'', ''CN''], [''1'', ''a.example.com''], [''2'']] ''ids.csv'' ''CN''
         ''report.txt'' Map.empty) = Uncaught AttributeError"
    by code_simp
  moreover have "snd (snd (main failing_env [[''id'', ''CN''], [''1'', ''a.example.com''], [''2'']] ''ids.csv'' ''CN''
         ''report.txt'' Map.empty)) ''report.txt'' = None"
    by code_simp
  ultimately show ?thesis
    by simp
qed

text \<open>
  Claim C9 fails on a ragged file, by the same defect as C1. No row has a non-empty
  trimmed value in the column \<open>CN\<close>, yet \<open>main\<close> does not print that no hosts were
  found and return: the record that stops short of the column makes it end with the
  uncaught \<open>AttributeError\<close>, nothing printed, and the process status is 1.
\<close>

theorem short_row_no_hosts_not_reported:
  "''CN'' \<in> set [''id'', ''CN'']
   \<and> filter (\<lambda>v. v \<noteq> []) (map strip (column_values [''id'', ''CN''] ''CN'' [[''1'', ''  ''], [''2'']])) = []
   \<and> fst (main example_env [[''id'', ''CN''], [''1'', ''  ''], [''2'']] ''ids.csv'' ''CN'' ''report.txt''
         Map.empty) = Uncaught AttributeError
   \<and> fst (snd (main example_env [[''id'', ''CN''], [''1'', ''  ''], [''2'']] ''ids.csv'' ''CN'' ''report.txt''
         Map.empty)) = []
   \<and> exit_status (fst (main example_env [[''id'', ''CN''], [''1'', ''  ''], [''2'']] ''ids.csv'' ''CN''
         ''report.txt'' Map.empty)) = 1"
  by code_simp

text \<open>
  Claim C10. Every host the loader gives is non-empty and already trimmed, so for it
  \<open>make_nslookup_cmd\<close> builds the \<open>nslookup\<close> command and \<open>run_query\<close> returns with
  status \<open>OK\<close>, also when the query times out or raises: neither \<open>EMPTY_HOSTNAME\<close> nor
  the reporter's \<open>EXC\<close> is the status, and only the output text tells the three ways a
  query ends apart.
\<close>

theorem loaded_host_status_OK:
  assumes "read_rows fieldnames column_name rows [] = Inr hosts"
    and "h \<in> set hosts"
  shows "h \<noteq> [] \<and> strip h = h
       \<and> make_nslookup_cmd h = Inr (Some [''nslookup'', ''-type=TXT'', h])
       \<and> (\<exists>out. run_query run h = Inr (h, ''OK'', out))
       \<and> (\<forall>partial_out partial_err. run [''nslookup'', ''-type=TXT'', h] = TimeoutExpired partial_out partial_err
             \<longrightarrow> run_query run h = Inr (h, ''OK'', ''ERROR: timeout after 6s''))
       \<and> (\<forall>msg. run [''nslookup'', ''-type=TXT'', h] = Failed msg
             \<longrightarrow> run_query run h = Inr (h, ''OK'', ''ERROR: '' @ msg))
       \<and> fst (snd (fut_result e (i, h))) = ''OK''"
proof -
  have "\<forall>h \<in> set hosts. h \<noteq> [] \<and> strip h = h"
    using assms(1) by (rule read_rows_stripped) simp
  with assms(2) have h: "h \<noteq> []" "strip h = h"
    by simp_all
  note result = run_query_stripped [OF h, of run]
  have "\<exists>out. run_query run h = Inr (h, ''OK'', out)"
    using result by blast
  moreover have "\<forall>partial_out partial_err.
      run [''nslookup'', ''-type=TXT'', h] = TimeoutExpired partial_out partial_err
        \<longrightarrow> run_query run h = Inr (h, ''OK'', ''ERROR: timeout after 6s'')"
    using result by simp
  moreover have "\<forall>msg. run [''nslookup'', ''-type=TXT'', h] = Failed msg
      \<longrightarrow> run_query run h = Inr (h, ''OK'', ''ERROR: '' @ msg)"
    using result by simp
  moreover have "fst (snd (fut_result e (i, h))) = ''OK''"
    using fut_result_loaded [OF assms, of e i] by simp
  ultimately show ?thesis
    using h make_nslookup_cmd_stripped [OF h] by (intro conjI)
qed

theorem loaded_host_status_OK_witness:
  "read_rows [''CN'', ''Issuer''] ''CN'' (tl example_records) [] = Inr [''a.example.com'', ''b.example.com'']
   \<and> ''b.example.com'' \<in> set [''a.example.com'', ''b.example.com'']
   \<and> make_nslookup_cmd ''b.example.com'' = Inr (Some [''nslookup'', ''-type=TXT'', ''b.example.com''])
   \<and> run_query (subprocess_run example_env 1) ''b.example.com''
        = Inr (''b.example.com'', ''OK'', ''ERROR: timeout after 6s'')
   \<and> fst (snd (fut_result example_env (1, ''b.example.com''))) = ''OK''"
proof -
  have loaded: "read_rows [''CN'', ''Issuer''] ''CN'' (tl example_records) []
      = Inr [''a.example.com'', ''b.example.com'']"
    by code_simp
  have host: "''b.example.com'' \<in> set [''a.example.com'', ''b.example.com'']"
    by simp
  have expired: "subprocess_run example_env 1 [''nslookup'', ''-type=TXT'', ''b.example.com'']
      = TimeoutExpired ''Server: 10.0.0.1'' []"
    by (simp add: example_env_def)
  note run = loaded_host_status_OK [OF loaded host, of "subprocess_run example_env 1" example_env 1]
  have "make_nslookup_cmd ''b.example.com'' = Inr (Some [''nslookup'', ''-type=TXT'', ''b.example.com''])"
    by (rule run [THEN conjunct2, THEN conjunct2, THEN conjunct1])
  moreover from run expired have "run_query (subprocess_run example_env 1) ''b.example.com''
      = Inr (''b.example.com'', ''OK'', ''ERROR: timeout after 6s'')"
    by blast
  moreover have "fst (snd (fut_result example_env (1, ''b.example.com''))) = ''OK''"
    by (rule run [THEN conjunct2, THEN conjunct2, THEN conjunct2, THEN conjunct2, THEN conjunct2,
          THEN conjunct2])
  ultimately show ?thesis
    using loaded host by (intro conjI)
qed

end
